theory Spec2Isabelle
  imports Main
begin

section \<open>Strings and the library functions the program calls\<close>

text \<open>
  A Python string is modelled as an Isabelle \<open>string\<close>, a list of characters with the
  code points 0 to 255. The character classes below are Python's \<^verbatim>\<open>str.isspace\<close>,
  \<^verbatim>\<open>str.isdigit\<close> and \<^verbatim>\<open>str.isupper\<close> on that range. Python's \<^verbatim>\<open>None\<close>, where a
  token may be absent, is \<open>None\<close> of an option type.
\<close>

definition isspace :: "char \<Rightarrow> bool" where
  "isspace c = (c \<in> set [CHR 0x09, CHR 0x0A, CHR 0x0B, CHR 0x0C, CHR 0x0D,
      CHR 0x1C, CHR 0x1D, CHR 0x1E, CHR 0x1F, CHR 0x20, CHR 0x85, CHR 0xA0])"

definition decimal :: "char \<Rightarrow> bool" where
  \<comment> \<open>the decimal digits, the ones \<^verbatim>\<open>int()\<close> and \<^verbatim>\<open>float()\<close> read\<close>
  "decimal c = (c \<in> set ''0123456789'')"

definition isdigit_char :: "char \<Rightarrow> bool" where
  \<comment> \<open>\<^verbatim>\<open>isdigit\<close> also accepts the superscript digits two, three and one\<close>
  "isdigit_char c = (decimal c \<or> c \<in> set [CHR 0xB2, CHR 0xB3, CHR 0xB9])"

definition isdigit :: "string \<Rightarrow> bool" where
  \<comment> \<open>\<^verbatim>\<open>s.isdigit()\<close>: at least one character, and all of them digits\<close>
  "isdigit s = (s \<noteq> [] \<and> list_all isdigit_char s)"

definition isupper_char :: "char \<Rightarrow> bool" where
  "isupper_char c = (let k = of_char c :: nat in
     (0x41 \<le> k \<and> k \<le> 0x5A) \<or> (0xC0 \<le> k \<and> k \<le> 0xDE \<and> k \<noteq> 0xD7))"

definition str_opt :: "string option \<Rightarrow> string" where
  \<comment> \<open>how an f-string formats a token that may be \<^verbatim>\<open>None\<close>\<close>
  "str_opt t = (case t of None \<Rightarrow> ''None'' | Some s \<Rightarrow> s)"

definition join :: "string \<Rightarrow> string list \<Rightarrow> string" where
  \<comment> \<open>\<^verbatim>\<open>sep.join(xs)\<close>\<close>
  "join sep xs = (case xs of [] \<Rightarrow> [] | y # ys \<Rightarrow> y @ concat (map (\<lambda>z. sep @ z) ys))"

subsection \<open>Printing and reading integers\<close>

definition digit_char :: "nat \<Rightarrow> char" where
  "digit_char d = char_of (48 + d)"

fun str_nat :: "nat \<Rightarrow> string" where
  "str_nat n = (if n < 10 then [digit_char n] else str_nat (n div 10) @ [digit_char (n mod 10)])"

declare str_nat.simps [simp del]

definition str_int :: "int \<Rightarrow> string" where
  \<comment> \<open>\<^verbatim>\<open>str(i)\<close> of an integer\<close>
  "str_int i = (if i < 0 then CHR ''-'' # str_nat (nat (- i)) else str_nat (nat i))"

definition strip :: "string \<Rightarrow> string" where
  "strip s = rev (dropWhile isspace (rev (dropWhile isspace s)))"

fun unsigned :: "string \<Rightarrow> bool \<times> string" where
  \<comment> \<open>splits an optional sign off: (negative, rest)\<close>
  "unsigned (c # cs) = (if c = CHR ''-'' then (True, cs) else if c = CHR ''+'' then (False, cs)
     else (False, c # cs))"
| "unsigned [] = (False, [])"

fun underscores_ok :: "char option \<Rightarrow> string \<Rightarrow> bool" where
  \<comment> \<open>every underscore stands between two decimal digits; the first argument is the
      character before\<close>
  "underscores_ok prev [] = True"
| "underscores_ok prev (c # cs) =
     (if c = CHR ''_''
      then (case prev of None \<Rightarrow> False | Some q \<Rightarrow> decimal q) \<and>
           (case cs of [] \<Rightarrow> False | d # _ \<Rightarrow> decimal d) \<and> underscores_ok (Some c) cs
      else underscores_ok (Some c) cs)"

definition digit_value :: "char \<Rightarrow> nat" where
  "digit_value c = of_char c - 48"

definition decimal_value :: "string \<Rightarrow> nat" where
  "decimal_value ds = foldl (\<lambda>v c. 10 * v + digit_value c) 0 ds"

definition py_int :: "string \<Rightarrow> int option" where
  \<comment> \<open>\<^verbatim>\<open>int(s)\<close> of a string in base 10; \<open>None\<close> is its \<^verbatim>\<open>ValueError\<close>. The interpreter's
      configurable limit on the number of digits is not modelled.\<close>
  "py_int s = (let (neg, body) = unsigned (strip s); ds = filter (\<lambda>c. c \<noteq> CHR ''_'') body in
     if underscores_ok None body \<and> ds \<noteq> [] \<and> list_all decimal ds
     then Some (if neg then - int (decimal_value ds) else int (decimal_value ds))
     else None)"

subsection \<open>Reading floats\<close>

text \<open>
  The program only stores the result of \<^verbatim>\<open>float(s)\<close> in a node and prints it again with
  \<^verbatim>\<open>str\<close>. Neither the rounding to a double nor the shortest printed form is modelled:
  a float is represented by the literal it was read from, \<^verbatim>\<open>float\<close> is modelled by the
  test whether the literal is one that \<^verbatim>\<open>float\<close> accepts, and \<^verbatim>\<open>str\<close> of a float is a
  parameter of the renderers.
\<close>

datatype pyfloat = FloatOf string

definition lower_ascii :: "char \<Rightarrow> char" where
  "lower_ascii c = (let k = of_char c :: nat in if 0x41 \<le> k \<and> k \<le> 0x5A then char_of (k + 32) else c)"

definition mantissa_ok :: "string \<Rightarrow> bool" where
  \<comment> \<open>digits with at most one point, and at least one digit\<close>
  "mantissa_ok m = (let ip = takeWhile decimal m; r = dropWhile decimal m in
     case r of [] \<Rightarrow> ip \<noteq> []
     | c # fp \<Rightarrow> c = CHR ''.'' \<and> list_all decimal fp \<and> (ip \<noteq> [] \<or> fp \<noteq> []))"

definition exponent_ok :: "string \<Rightarrow> bool" where
  \<comment> \<open>nothing, or \<^verbatim>\<open>e\<close> or \<^verbatim>\<open>E\<close>, an optional sign and at least one digit\<close>
  "exponent_ok x = (case x of [] \<Rightarrow> True
     | _ # r \<Rightarrow> (let ds = snd (unsigned r) in ds \<noteq> [] \<and> list_all decimal ds))"

definition float_literal :: "string \<Rightarrow> bool" where
  "float_literal s = (let body = snd (unsigned (strip s)) in
     map lower_ascii body \<in> set [''inf'', ''infinity'', ''nan''] \<or>
     (underscores_ok None body \<and>
      (let t = filter (\<lambda>c. c \<noteq> CHR ''_'') body;
           is_e = (\<lambda>c. c = CHR ''e'' \<or> c = CHR ''E'')
       in mantissa_ok (takeWhile (\<lambda>c. \<not> is_e c) t) \<and> exponent_ok (dropWhile (\<lambda>c. \<not> is_e c) t))))"

definition py_float :: "string \<Rightarrow> pyfloat option" where
  \<comment> \<open>\<^verbatim>\<open>float(s)\<close> of a string; \<open>None\<close> is its \<^verbatim>\<open>ValueError\<close>\<close>
  "py_float s = (if float_literal s then Some (FloatOf s) else None)"

section \<open>The lexer\<close>

definition word_char :: "char \<Rightarrow> bool" where
  \<comment> \<open>the condition of the inner loop that reads a word\<close>
  "word_char c = (c \<notin> set ''[](){},:'' \<and> \<not> isspace c)"

function tokenize :: "string \<Rightarrow> string list" where
  "tokenize [] = []"
| "tokenize (c # cs) =
     (if isspace c then tokenize cs
      else if c \<in> set ''[](),{}'' then [c] # tokenize cs
      else if c = CHR '':'' then [c] # tokenize cs
      else takeWhile word_char (c # cs) # tokenize (dropWhile word_char (c # cs)))"
  by pat_completeness auto
termination
proof (relation "measure length")
  fix c :: char and cs :: string
  assume "\<not> isspace c" "c \<notin> set ''[](),{}''" "c \<noteq> CHR '':''"
  then have "word_char c" by (simp add: word_char_def)
  then have "dropWhile word_char (c # cs) = dropWhile word_char cs" by simp
  then show "(dropWhile word_char (c # cs), c # cs) \<in> measure length"
    by (simp add: length_dropWhile_le le_imp_less_Suc)
qed simp_all

section \<open>The syntax tree\<close>

text \<open>
  One constructor for each node class. A field is optional where the class declares it
  with the default \<^verbatim>\<open>None\<close> (the arguments of a function, the elements of a list, the
  two sides of a dict) or where the parser can store an absent token in it (the name of a
  symbol or of a function, read with \<^verbatim>\<open>consume\<close> at the end of the input).
\<close>

datatype node =
    Symbol "string option"
  | Integer int
  | Float pyfloat
  | Boolean bool
  | String string
  | Function "string option" "node list option"
  | List "node list option"
  | Dict "node option" "node option"

datatype error =
    ValueError string   \<comment> \<open>\<^verbatim>\<open>raise ValueError(message)\<close> in \<^verbatim>\<open>parse_dict\<close>\<close>
  | LiteralError string \<comment> \<open>the \<^verbatim>\<open>ValueError\<close> of \<^verbatim>\<open>int()\<close> or \<^verbatim>\<open>float()\<close> on this text\<close>
  | TypeError           \<comment> \<open>\<^verbatim>\<open>int(None)\<close>, \<^verbatim>\<open>float(None)\<close>, iterating \<^verbatim>\<open>None\<close>\<close>
  | AttributeError      \<comment> \<open>\<^verbatim>\<open>None.isdigit()\<close>\<close>

section \<open>The parser\<close>

text \<open>
  The parser object holds the token list and the position of the current token.
  \<^verbatim>\<open>current_token\<close> is \<^verbatim>\<open>None\<close> past the end of the list, and \<^verbatim>\<open>consume\<close> moves on
  also there.
\<close>

record parser =
  tokens :: "string list"
  pos :: nat

definition current_token :: "parser \<Rightarrow> string option" where
  "current_token p = (if pos p \<ge> length (tokens p) then None else Some (tokens p ! pos p))"

definition consume :: "parser \<Rightarrow> string option \<times> parser" where
  "consume p = (current_token p, p\<lparr>pos := pos p + 1\<rparr>)"

text \<open>
  A parsing function raises, returns (a value and the parser after it), or does neither:
  the loop of \<^verbatim>\<open>LSymbol\<close> never ends once the tokens are used up. The recursive functions
  take the number of nested calls and loop rounds they may still make; \<open>OutOfFuel\<close> says
  that the number given was too small.
\<close>

datatype 'a outcome = OutOfFuel | Raise error | Return 'a

fun and_then :: "'a outcome \<Rightarrow> ('a \<Rightarrow> 'b outcome) \<Rightarrow> 'b outcome" where
  "and_then OutOfFuel f = OutOfFuel"
| "and_then (Raise e) f = Raise e"
| "and_then (Return x) f = f x"

definition parse_simple_token :: "string option \<Rightarrow> node outcome" where
  "parse_simple_token token =
     (case token of
        None \<Rightarrow> Raise AttributeError
      | Some t \<Rightarrow>
          if isdigit t then
            (case py_int t of None \<Rightarrow> Raise (LiteralError t) | Some v \<Rightarrow> Return (Integer v))
          else if isdigit (filter (\<lambda>c. c \<noteq> CHR ''.'') t) \<and> CHR ''.'' \<in> set t then
            (case py_float t of None \<Rightarrow> Raise (LiteralError t) | Some v \<Rightarrow> Return (Float v))
          else Return (String t))"

definition int_of_token :: "string option \<Rightarrow> int outcome" where
  \<comment> \<open>\<^verbatim>\<open>int(self.consume())\<close>\<close>
  "int_of_token token = (case token of None \<Rightarrow> Raise TypeError
     | Some t \<Rightarrow> (case py_int t of None \<Rightarrow> Raise (LiteralError t) | Some v \<Rightarrow> Return v))"

definition float_of_token :: "string option \<Rightarrow> pyfloat outcome" where
  \<comment> \<open>\<^verbatim>\<open>float(self.consume())\<close>\<close>
  "float_of_token token = (case token of None \<Rightarrow> Raise TypeError
     | Some t \<Rightarrow> (case py_float t of None \<Rightarrow> Raise (LiteralError t) | Some v \<Rightarrow> Return v))"

fun lsymbol_loop :: "nat \<Rightarrow> parser \<Rightarrow> node list \<Rightarrow> (node list \<times> parser) outcome" where
  \<comment> \<open>the \<^verbatim>\<open>while\<close> loop of the \<^verbatim>\<open>LSymbol\<close> branch\<close>
  "lsymbol_loop 0 p symbols = OutOfFuel"
| "lsymbol_loop (Suc n) p symbols =
     (if current_token p \<noteq> Some '']'' then
        (if current_token p = Some '','' then lsymbol_loop n (snd (consume p)) symbols
         else (let (t, p') = consume p in lsymbol_loop n p' (symbols @ [Symbol t])))
      else Return (symbols, p))"

definition parse_type_constructor :: "nat \<Rightarrow> string \<Rightarrow> parser \<Rightarrow> (node \<times> parser) outcome" where
  \<comment> \<open>The first statement of the method, \<^verbatim>\<open>type_name = self.consume()\<close>, is made by
      \<^verbatim>\<open>parse_expression\<close>, the only caller, which has seen that the token exists; the
      model starts after it, with the name and the parser behind it.\<close>
  "parse_type_constructor n type_name p =
     (if current_token p \<noteq> Some ''['' then Return (String type_name, p)
      else (let p = snd (consume p) in
        if type_name = ''Symbol'' then
          (let (name, p) = consume p; p = snd (consume p) in Return (Symbol name, p))
        else if type_name \<in> set [''Int'', ''Long''] then
          (let (t, p) = consume p in
           and_then (int_of_token t) (\<lambda>v. let p = snd (consume p) in Return (Integer v, p)))
        else if type_name \<in> set [''Real'', ''Float''] then
          (let (t, p) = consume p in
           and_then (float_of_token t) (\<lambda>v. let p = snd (consume p) in Return (Float v, p)))
        else if type_name = ''Bool'' then
          (let (t, p) = consume p; p = snd (consume p) in Return (Boolean (t = Some ''1''), p))
        else if type_name = ''Func'' then
          (let (func_name, p) = consume p; p = snd (consume p)
           in Return (Function func_name (Some []), p))
        else if type_name = ''LSymbol'' then
          and_then (lsymbol_loop n p [])
            (\<lambda>(symbols, p). let p = snd (consume p) in Return (List (Some symbols), p))
        else
          (let (content, p) = consume p; p = snd (consume p)
           in Return (String (type_name @ ''['' @ str_opt content @ '']''), p))))"

definition constructor_name :: "string option \<Rightarrow> string option" where
  \<comment> \<open>the test \<^verbatim>\<open>token and token[0].isupper()\<close>: the token, when it passes\<close>
  "constructor_name token = (case token of None \<Rightarrow> None
     | Some t \<Rightarrow> (case t of [] \<Rightarrow> None | c # _ \<Rightarrow> if isupper_char c then Some t else None))"

fun parse_expression :: "nat \<Rightarrow> parser \<Rightarrow> (node \<times> parser) outcome"
  and parse_list :: "nat \<Rightarrow> parser \<Rightarrow> (node \<times> parser) outcome"
  and parse_list_loop :: "nat \<Rightarrow> parser \<Rightarrow> node list \<Rightarrow> (node list \<times> parser) outcome"
  and parse_dict :: "nat \<Rightarrow> parser \<Rightarrow> (node \<times> parser) outcome"
where
  "parse_expression 0 p = OutOfFuel"
| "parse_expression (Suc n) p =
     (let token = current_token p in
      if token = Some ''['' then parse_list n p
      else if token = Some ''{'' then parse_dict n p
      else (case constructor_name token of
          Some type_name \<Rightarrow> parse_type_constructor n type_name (snd (consume p))
        | None \<Rightarrow> (let (token, p) = consume p in
                   and_then (parse_simple_token token) (\<lambda>k. Return (k, p)))))"
| "parse_list 0 p = OutOfFuel"
| "parse_list (Suc n) p =
     (let p = snd (consume p) in
      and_then (parse_list_loop n p [])
        (\<lambda>(elements, p). let p = snd (consume p) in Return (List (Some elements), p)))"
| "parse_list_loop 0 p elements = OutOfFuel"
| "parse_list_loop (Suc n) p elements =
     (if current_token p \<noteq> Some '']'' then
        (if current_token p = Some '','' then parse_list_loop n (snd (consume p)) elements
         else and_then (parse_expression n p)
                (\<lambda>(k, p). parse_list_loop n p (elements @ [k])))
      else Return (elements, p))"
| "parse_dict 0 p = OutOfFuel"
| "parse_dict (Suc n) p =
     (let p = snd (consume p) in
      and_then (parse_expression n p) (\<lambda>(keys, p).
        if current_token p \<noteq> Some '','' then
          Raise (ValueError (''Expected '' @ [CHR 0x27, CHR '','', CHR 0x27] @ '' in dict, got ''
                   @ str_opt (current_token p)))
        else (let p = snd (consume p) in
          and_then (parse_expression n p) (\<lambda>(values, p).
            if current_token p \<noteq> Some ''}'' then
              Raise (ValueError (''Expected '' @ [CHR 0x27, CHR ''}'', CHR 0x27] @ '' in dict, got ''
                       @ str_opt (current_token p)))
            else (let p = snd (consume p) in Return (Dict (Some keys) (Some values), p))))))"

definition parse :: "nat \<Rightarrow> string list \<Rightarrow> node outcome" where
  \<comment> \<open>\<^verbatim>\<open>Parser(tokens).parse()\<close>\<close>
  "parse n ts = and_then (parse_expression n \<lparr>tokens = ts, pos = 0\<rparr>) (\<lambda>(k, p). Return k)"

section \<open>The direct renderer\<close>

text \<open>
  Rendering a list whose first element is a function assigns the rest of the list to the
  \<^verbatim>\<open>args\<close> field of that function. The renderers therefore return the tree as they leave
  it, next to their output. After the assignment the new \<^verbatim>\<open>args\<close> list holds the very
  objects of the list's tail, so what rendering the arguments changes in them is changed
  in the tail as well: the returned list has the rendered function at its head and that
  function's arguments as its tail.
\<close>

definition dict_get :: "(string \<times> string) list \<Rightarrow> string option \<Rightarrow> string option" where
  \<comment> \<open>\<^verbatim>\<open>glyph_map.get(name, name)\<close>\<close>
  "dict_get m name = (case name of None \<Rightarrow> None
     | Some s \<Rightarrow> (case map_of m s of None \<Rightarrow> Some s | Some g \<Rightarrow> Some g))"

definition glyph_map_direct :: "(string \<times> string) list" where
  "glyph_map_direct = [(''@'', ''at''), (''!'', ''bang''), ('':'', ''colon''),
     (''::'', ''colon_colon''), (''-'', ''dash''), (''.'', ''dot''), (''$'', ''dollar''),
     (''#'', ''hash''), (''?'', ''query'')]"

definition float_text :: "(pyfloat \<Rightarrow> string) \<Rightarrow> pyfloat \<Rightarrow> string" where
  \<comment> \<open>\<^verbatim>\<open>str(value)\<close>, with \<^verbatim>\<open>.0\<close> added when it has no point\<close>
  "float_text str_float v =
     (let value_str = str_float v in
      if CHR ''.'' \<notin> set value_str then value_str @ ''.0'' else value_str)"

definition bool_text :: "bool \<Rightarrow> string" where
  "bool_text b = (if b then ''True'' else ''False'')"

fun args_of :: "node \<Rightarrow> node list" where
  "args_of (Function name (Some args)) = args"
| "args_of k = []"

fun transform_ast :: "(pyfloat \<Rightarrow> string) \<Rightarrow> node \<Rightarrow> error + string \<times> node"
  and transform_each :: "(pyfloat \<Rightarrow> string) \<Rightarrow> node list \<Rightarrow> error + string list \<times> node list"
  and transform_opt :: "(pyfloat \<Rightarrow> string) \<Rightarrow> node option \<Rightarrow> error + string \<times> node option"
where
  "transform_ast sf (Symbol name) = Inr (CHR 0x60 # str_opt name, Symbol name)"
| "transform_ast sf (Integer v) = Inr (str_int v, Integer v)"
| "transform_ast sf (Float v) = Inr (float_text sf v, Float v)"
| "transform_ast sf (Boolean b) = Inr (bool_text b, Boolean b)"
| "transform_ast sf (String v) = Inr (v, String v)"
| "transform_ast sf (Function name None) = Inl TypeError"
| "transform_ast sf (Function name (Some args)) =
     (case transform_each sf args of
        Inl e \<Rightarrow> Inl e
      | Inr (strs, args') \<Rightarrow>
          Inr (str_opt (dict_get glyph_map_direct name) @ ''('' @ join '', '' strs @ '')'',
               Function name (Some args')))"
| "transform_ast sf (List None) = Inl TypeError"
| "transform_ast sf (List (Some (Function name a # elements))) =
     (case transform_ast sf (Function name (Some elements)) of
        Inl e \<Rightarrow> Inl e
      | Inr (s, func) \<Rightarrow> Inr (s, List (Some (func # args_of func))))"
| "transform_ast sf (List (Some elements)) =
     (case transform_each sf elements of
        Inl e \<Rightarrow> Inl e
      | Inr (strs, elements') \<Rightarrow> Inr (''['' @ join '', '' strs @ '']'', List (Some elements')))"
| "transform_ast sf (Dict keys vals) =
     (case transform_opt sf keys of
        Inl e \<Rightarrow> Inl e
      | Inr (k_str, keys') \<Rightarrow>
          (case transform_opt sf vals of
             Inl e \<Rightarrow> Inl e
           | Inr (v_str, vals') \<Rightarrow> Inr (''{'' @ k_str @ '': '' @ v_str @ ''}'', Dict keys' vals')))"
| "transform_each sf [] = Inr ([], [])"
| "transform_each sf (k # ks) =
     (case transform_ast sf k of
        Inl e \<Rightarrow> Inl e
      | Inr (s, k') \<Rightarrow>
          (case transform_each sf ks of
             Inl e \<Rightarrow> Inl e
           | Inr (strs, ks') \<Rightarrow> Inr (s # strs, k' # ks')))"
| "transform_opt sf None = Inr (''None'', None)"
| "transform_opt sf (Some k) =
     (case transform_ast sf k of Inl e \<Rightarrow> Inl e | Inr (s, k') \<Rightarrow> Inr (s, Some k'))"

section \<open>The flattening renderer\<close>

text \<open>
  The flattener object holds the counter of the temporaries. \<^verbatim>\<open>flatten_ast\<close> takes the
  counter and returns the statements and the final expression, the counter and the tree
  as it leaves them.
\<close>

definition glyph_map_flat :: "(string \<times> string) list" where
  "glyph_map_flat = [(''@'', ''at''), (''!'', ''bang''), ('':'', ''colon''),
     (''::'', ''colon_colon''), (''-'', ''dash''), (''.'', ''dot''), (''$'', ''dollar''),
     (''#'', ''hash''), (''?'', ''query''), (''_'', ''underscore'')]"

fun flatten_ast ::
    "(pyfloat \<Rightarrow> string) \<Rightarrow> nat \<Rightarrow> node \<Rightarrow> error + (string list \<times> string) \<times> nat \<times> node"
  and flatten_each ::
    "(pyfloat \<Rightarrow> string) \<Rightarrow> nat \<Rightarrow> node list \<Rightarrow> error + (string list \<times> string list) \<times> nat \<times> node list"
  and flatten_opt ::
    "(pyfloat \<Rightarrow> string) \<Rightarrow> nat \<Rightarrow> node option \<Rightarrow> error + (string list \<times> string) \<times> nat \<times> node option"
where
  "flatten_ast sf c (Symbol name) = Inr (([], CHR 0x60 # str_opt name), c, Symbol name)"
| "flatten_ast sf c (Integer v) = Inr (([], str_int v), c, Integer v)"
| "flatten_ast sf c (Float v) = Inr (([], float_text sf v), c, Float v)"
| "flatten_ast sf c (Boolean b) = Inr (([], bool_text b), c, Boolean b)"
| "flatten_ast sf c (String v) = Inr (([], v), c, String v)"
| "flatten_ast sf c (Function name None) = Inl TypeError"
| "flatten_ast sf c (Function name (Some args)) =
     (case flatten_each sf c args of
        Inl e \<Rightarrow> Inl e
      | Inr ((statements, arg_exprs), c, args') \<Rightarrow>
          (let func_name = str_opt (dict_get glyph_map_flat name);
               args_str = join '', '' arg_exprs;
               c = c + 1;
               temp_name = ''temp'' @ str_nat c
           in Inr ((statements @ [temp_name @ '' = '' @ func_name @ ''('' @ args_str @ '')''],
                    temp_name), c, Function name (Some args'))))"
| "flatten_ast sf c (List None) = Inl TypeError"
| "flatten_ast sf c (List (Some (Function name a # elements))) =
     (case flatten_ast sf c (Function name (Some elements)) of
        Inl e \<Rightarrow> Inl e
      | Inr (out, c, func) \<Rightarrow> Inr (out, c, List (Some (func # args_of func))))"
| "flatten_ast sf c (List (Some elements)) =
     (case flatten_each sf c elements of
        Inl e \<Rightarrow> Inl e
      | Inr ((statements, elem_exprs), c, elements') \<Rightarrow>
          Inr ((statements, ''['' @ join '', '' elem_exprs @ '']''), c, List (Some elements')))"
| "flatten_ast sf c (Dict keys vals) =
     (case flatten_opt sf c keys of
        Inl e \<Rightarrow> Inl e
      | Inr ((k_stmts, k_expr), c, keys') \<Rightarrow>
          (case flatten_opt sf c vals of
             Inl e \<Rightarrow> Inl e
           | Inr ((v_stmts, v_expr), c, vals') \<Rightarrow>
               Inr ((k_stmts @ v_stmts, ''{'' @ k_expr @ '': '' @ v_expr @ ''}''), c,
                    Dict keys' vals')))"
| "flatten_each sf c [] = Inr (([], []), c, [])"
| "flatten_each sf c (k # ks) =
     (case flatten_ast sf c k of
        Inl e \<Rightarrow> Inl e
      | Inr ((stmts, expr), c, k') \<Rightarrow>
          (case flatten_each sf c ks of
             Inl e \<Rightarrow> Inl e
           | Inr ((statements, exprs), c, ks') \<Rightarrow> Inr ((stmts @ statements, expr # exprs), c, k' # ks')))"
| "flatten_opt sf c None = Inr (([], ''None''), c, None)"
| "flatten_opt sf c (Some k) =
     (case flatten_ast sf c k of
        Inl e \<Rightarrow> Inl e
      | Inr (out, c, k') \<Rightarrow> Inr (out, c, Some k'))"


section \<open>The two conversions\<close>

text \<open>
  The input is the decoded text. The first argument is the number of nested calls and
  loop rounds that the parser may make.
\<close>

definition convert_lisp_to_function_calls :: "nat \<Rightarrow> (pyfloat \<Rightarrow> string) \<Rightarrow> string \<Rightarrow> string outcome" where
  "convert_lisp_to_function_calls n sf parsed_str =
     and_then (parse n (tokenize parsed_str)) (\<lambda>ast.
       case transform_ast sf ast of Inl e \<Rightarrow> Raise e | Inr (s, ast') \<Rightarrow> Return s)"



section \<open>Notions used in the statements\<close>

definition remaining :: "parser \<Rightarrow> string list" where
  \<comment> \<open>the tokens from the current one on\<close>
  "remaining p = drop (pos p) (tokens p)"

fun same :: "('a \<times> parser) outcome \<Rightarrow> ('a \<times> parser) outcome \<Rightarrow> bool" where
  \<comment> \<open>the same outcome, the parsers left with the same tokens to read\<close>
  "same (Return (x, p)) (Return (y, q)) = (x = y \<and> remaining p = remaining q)"
| "same (Raise e) (Raise e') = (e = e')"
| "same OutOfFuel OutOfFuel = True"
| "same a b = False"

section \<open>More fuel does not change a result\<close>

text \<open>
  Once a parsing function has raised or returned with some fuel, it does the same with
  any larger fuel: a result other than \<open>OutOfFuel\<close> is the result of the program.
\<close>

lemma and_then_mono:
  assumes "and_then a f \<noteq> OutOfFuel"
    and "a \<noteq> OutOfFuel \<Longrightarrow> a' = a"
    and "\<And>x. a = Return x \<Longrightarrow> f x \<noteq> OutOfFuel \<Longrightarrow> f' x = f x"
  shows "and_then a' f' = and_then a f"
  using assms by (cases a) auto

lemma lsymbol_loop_mono:
  "lsymbol_loop n p syms \<noteq> OutOfFuel \<Longrightarrow> n \<le> m \<Longrightarrow> lsymbol_loop m p syms = lsymbol_loop n p syms"
proof (induction n arbitrary: m p syms)
  case 0
  then show ?case by simp
next
  case (Suc n)
  then obtain m' where m: "m = Suc m'" and le: "n \<le> m'" by (cases m) auto
  have step: "lsymbol_loop m' q s = lsymbol_loop n q s" if "lsymbol_loop n q s \<noteq> OutOfFuel" for q s
    using Suc.IH[OF that le] .
  show ?case
  proof (cases "current_token p \<noteq> Some '']''")
    case False
    then show ?thesis unfolding m by simp
  next
    case True
    note nb = this
    show ?thesis
    proof (cases "current_token p = Some '',''")
      case True
      with nb Suc.prems(1) have "lsymbol_loop n (snd (consume p)) syms \<noteq> OutOfFuel" by simp
      from step[OF this] nb True show ?thesis unfolding m by simp
    next
      case False
      with nb Suc.prems(1) have "lsymbol_loop n (snd (consume p)) (syms @ [Symbol (fst (consume p))]) \<noteq> OutOfFuel"
        by (simp add: split_def Let_def)
      from step[OF this] nb False show ?thesis unfolding m by (simp add: split_def Let_def)
    qed
  qed
qed

lemma parse_type_constructor_mono:
  assumes "parse_type_constructor n t p \<noteq> OutOfFuel" "n \<le> m"
  shows "parse_type_constructor m t p = parse_type_constructor n t p"
proof (cases "t = ''LSymbol'' \<and> current_token p = Some ''[''")
  case True
  with assms(1) have "lsymbol_loop n (snd (consume p)) [] \<noteq> OutOfFuel"
    by (auto simp: parse_type_constructor_def Let_def)
  from lsymbol_loop_mono[OF this assms(2)] True show ?thesis
    by (simp add: parse_type_constructor_def Let_def)
next
  case False
  then show ?thesis
    by (auto simp: parse_type_constructor_def Let_def)
qed

lemma parser_mono_aux:
  "(\<forall>m p. parse_expression n p \<noteq> OutOfFuel \<longrightarrow> n \<le> m \<longrightarrow> parse_expression m p = parse_expression n p) \<and>
   (\<forall>m p. parse_list n p \<noteq> OutOfFuel \<longrightarrow> n \<le> m \<longrightarrow> parse_list m p = parse_list n p) \<and>
   (\<forall>m p es. parse_list_loop n p es \<noteq> OutOfFuel \<longrightarrow> n \<le> m \<longrightarrow> parse_list_loop m p es = parse_list_loop n p es) \<and>
   (\<forall>m p. parse_dict n p \<noteq> OutOfFuel \<longrightarrow> n \<le> m \<longrightarrow> parse_dict m p = parse_dict n p)"
proof (induction n)
  case 0
  then show ?case by simp
next
  case (Suc n)
  have S: "\<exists>m'. m = Suc m' \<and> n \<le> m'" if "Suc n \<le> m" for m
    using that by (cases m) auto
  {
    fix m' assume le: "n \<le> m'"
    have ie: "parse_expression m' p = parse_expression n p" if "parse_expression n p \<noteq> OutOfFuel" for p
      using Suc that le by blast
    have il: "parse_list m' p = parse_list n p" if "parse_list n p \<noteq> OutOfFuel" for p
      using Suc that le by blast
    have ill: "parse_list_loop m' p es = parse_list_loop n p es" if "parse_list_loop n p es \<noteq> OutOfFuel" for p es
      using Suc that le by blast
    have id: "parse_dict m' p = parse_dict n p" if "parse_dict n p \<noteq> OutOfFuel" for p
      using Suc that le by blast
    have e: "parse_expression (Suc m') p = parse_expression (Suc n) p"
      if "parse_expression (Suc n) p \<noteq> OutOfFuel" for p
      using that il id parse_type_constructor_mono[OF _ le]
      by (auto simp: Let_def split: option.splits)
    have l: "parse_list (Suc m') p = parse_list (Suc n) p"
      if "parse_list (Suc n) p \<noteq> OutOfFuel" for p
      using that by (auto simp: Let_def intro!: and_then_mono ill)
    have ll: "parse_list_loop (Suc m') p es = parse_list_loop (Suc n) p es"
      if "parse_list_loop (Suc n) p es \<noteq> OutOfFuel" for p es
      using that by (auto simp: Let_def intro!: and_then_mono ill ie)
    have d: "parse_dict (Suc m') p = parse_dict (Suc n) p"
      if "parse_dict (Suc n) p \<noteq> OutOfFuel" for p
      using that by (auto simp: Let_def intro!: and_then_mono ie split: if_splits)
    note e l ll d
  }
  note steps = this
  show ?case
  proof (intro conjI allI impI)
    fix m p assume a: "parse_expression (Suc n) p \<noteq> OutOfFuel" "Suc n \<le> m"
    from S[OF a(2)] obtain m' where "m = Suc m'" "n \<le> m'" by blast
    then show "parse_expression m p = parse_expression (Suc n) p"
      using steps(1)[OF _ a(1)] by blast
  next
    fix m p assume a: "parse_list (Suc n) p \<noteq> OutOfFuel" "Suc n \<le> m"
    from S[OF a(2)] obtain m' where "m = Suc m'" "n \<le> m'" by blast
    then show "parse_list m p = parse_list (Suc n) p"
      using steps(2)[OF _ a(1)] by blast
  next
    fix m p es assume a: "parse_list_loop (Suc n) p es \<noteq> OutOfFuel" "Suc n \<le> m"
    from S[OF a(2)] obtain m' where "m = Suc m'" "n \<le> m'" by blast
    then show "parse_list_loop m p es = parse_list_loop (Suc n) p es"
      using steps(3)[OF _ a(1)] by blast
  next
    fix m p assume a: "parse_dict (Suc n) p \<noteq> OutOfFuel" "Suc n \<le> m"
    from S[OF a(2)] obtain m' where "m = Suc m'" "n \<le> m'" by blast
    then show "parse_dict m p = parse_dict (Suc n) p"
      using steps(4)[OF _ a(1)] by blast
  qed
qed

lemma parse_expression_mono:
  "parse_expression n p \<noteq> OutOfFuel \<Longrightarrow> n \<le> m \<Longrightarrow> parse_expression m p = parse_expression n p"
  using parser_mono_aux by blast

lemma parse_mono:
  assumes "parse n ts \<noteq> OutOfFuel" "n \<le> m"
  shows "parse m ts = parse n ts"
proof -
  from assms(1) have "parse_expression n \<lparr>tokens = ts, pos = 0\<rparr> \<noteq> OutOfFuel"
    by (auto simp: parse_def)
  from parse_expression_mono[OF this assms(2)] show ?thesis
    by (simp add: parse_def)
qed

section \<open>Concrete runs\<close>

lemma parse_bool:
  "parse (Suc n) [''Bool'', ''['', t, '']''] = Return (Boolean (t = ''1''))"
  by (simp add: parse_def constructor_name_def parse_type_constructor_def consume_def
      current_token_def isupper_char_def)

lemma tokenize_bool_1: "tokenize ''Bool[1]'' = [''Bool'', ''['', ''1'', '']'']"
  by code_simp

lemma tokenize_bool_0: "tokenize ''Bool[0]'' = [''Bool'', ''['', ''0'', '']'']"
  by code_simp

section \<open>The claims\<close>

text \<open>
  C8. For every token \<open>t\<close>, parsing the tokens of \<^verbatim>\<open>Bool[t]\<close> gives a Boolean node whose
  value is true exactly when \<open>t\<close> is the text \<^verbatim>\<open>1\<close>; so \<^verbatim>\<open>Bool[1]\<close> renders as \<^verbatim>\<open>True\<close>, and
  \<^verbatim>\<open>Bool[0]\<close> and \<^verbatim>\<open>Bool\<close> of anything else render as \<^verbatim>\<open>False\<close>. One unit of fuel is
  enough.
\<close>

theorem bool_constructor_true_iff_one:
  "parse (Suc n) [''Bool'', ''['', t, '']''] = Return (Boolean (t = ''1'')) \<and>
   and_then (parse (Suc n) [''Bool'', ''['', t, '']''])
     (\<lambda>ast. case transform_ast sf ast of Inl e \<Rightarrow> Raise e | Inr (s, ast') \<Rightarrow> Return s)
     = Return (if t = ''1'' then ''True'' else ''False'') \<and>
   convert_lisp_to_function_calls (Suc n) sf ''Bool[1]'' = Return ''True'' \<and>
   convert_lisp_to_function_calls (Suc n) sf ''Bool[0]'' = Return ''False''"
  unfolding convert_lisp_to_function_calls_def tokenize_bool_1 tokenize_bool_0 parse_bool
  by (simp add: bool_text_def)

theorem bool_constructor_true_iff_one_witness:
  "parse (Suc 0) [''Bool'', ''['', ''yes'', '']''] = Return (Boolean (''yes'' = ''1'')) \<and>
   and_then (parse (Suc 0) [''Bool'', ''['', ''yes'', '']''])
     (\<lambda>ast. case transform_ast (\<lambda>v. ''0.5'') ast of Inl e \<Rightarrow> Raise e | Inr (s, ast') \<Rightarrow> Return s)
     = Return (if ''yes'' = ''1'' then ''True'' else ''False'') \<and>
   convert_lisp_to_function_calls (Suc 0) (\<lambda>v. ''0.5'') ''Bool[1]'' = Return ''True'' \<and>
   convert_lisp_to_function_calls (Suc 0) (\<lambda>v. ''0.5'') ''Bool[0]'' = Return ''False''"
  using bool_constructor_true_iff_one [of 0 "''yes''" "\<lambda>v. ''0.5''"] .

lemma str_nat_1: "str_nat (Suc 0) = ''1''"
  by code_simp








lemma glyph_underscore:
  "dict_get glyph_map_flat (Some ''_'') = Some ''underscore''"
  "dict_get glyph_map_direct (Some ''_'') = Some ''_''"
  by (simp_all add: dict_get_def glyph_map_flat_def glyph_map_direct_def)

lemma glyph_agree:
  "name \<noteq> Some ''_'' \<Longrightarrow> dict_get glyph_map_flat name = dict_get glyph_map_direct name"
  by (cases name) (simp_all add: dict_get_def glyph_map_flat_def glyph_map_direct_def)

lemma flatten_underscore:
  "flatten_each sf c args = Inr ((statements, exprs), c', args') \<Longrightarrow>
   flatten_ast sf c (Function (Some ''_'') (Some args))
     = Inr ((statements @ [''temp'' @ str_nat (c' + 1) @ '' = '' @ ''underscore'' @ ''('' @ join '', '' exprs @ '')''],
             ''temp'' @ str_nat (c' + 1)), c' + 1, Function (Some ''_'') (Some args'))"
  by (simp add: glyph_underscore str_opt_def)

lemma transform_underscore:
  "transform_each sf args = Inr (strs, args') \<Longrightarrow>
   transform_ast sf (Function (Some ''_'') (Some args))
     = Inr (''_'' @ ''('' @ join '', '' strs @ '')'', Function (Some ''_'') (Some args'))"
  by (simp add: glyph_underscore str_opt_def)

text \<open>
  C5. The table of the flattening renderer maps the name \<^verbatim>\<open>_\<close> to \<^verbatim>\<open>underscore\<close> and the
  table of the direct renderer leaves it as it is; on every other name (and on an absent
  one) the two lookups agree. So for a function named \<^verbatim>\<open>_\<close> the statement of the flattener
  calls \<^verbatim>\<open>underscore(...)\<close> and the direct rendering is \<^verbatim>\<open>_(...)\<close>, whatever the arguments
  render to.
\<close>

theorem glyph_tables_differ_on_underscore:
  "dict_get glyph_map_flat (Some ''_'') = Some ''underscore'' \<and>
   dict_get glyph_map_direct (Some ''_'') = Some ''_'' \<and>
   (\<forall>name. name \<noteq> Some ''_'' \<longrightarrow> dict_get glyph_map_flat name = dict_get glyph_map_direct name) \<and>
   (\<forall>sf c args statements exprs c' args'.
      flatten_each sf c args = Inr ((statements, exprs), c', args') \<longrightarrow>
      flatten_ast sf c (Function (Some ''_'') (Some args))
        = Inr ((statements @ [''temp'' @ str_nat (c' + 1) @ '' = '' @ ''underscore'' @ ''('' @ join '', '' exprs @ '')''],
                ''temp'' @ str_nat (c' + 1)), c' + 1, Function (Some ''_'') (Some args'))) \<and>
   (\<forall>sf args strs args'.
      transform_each sf args = Inr (strs, args') \<longrightarrow>
      transform_ast sf (Function (Some ''_'') (Some args))
        = Inr (''_'' @ ''('' @ join '', '' strs @ '')'', Function (Some ''_'') (Some args')))"
proof (intro conjI allI impI)
  show "dict_get glyph_map_flat (Some ''_'') = Some ''underscore''" by (rule glyph_underscore(1))
  show "dict_get glyph_map_direct (Some ''_'') = Some ''_''" by (rule glyph_underscore(2))
next
  fix name :: "string option" assume "name \<noteq> Some ''_''"
  then show "dict_get glyph_map_flat name = dict_get glyph_map_direct name" by (rule glyph_agree)
next
  fix sf c args statements exprs c' args'
  assume "flatten_each sf c args = Inr ((statements, exprs), c', args')"
  then show "flatten_ast sf c (Function (Some ''_'') (Some args))
        = Inr ((statements @ [''temp'' @ str_nat (c' + 1) @ '' = '' @ ''underscore'' @ ''('' @ join '', '' exprs @ '')''],
                ''temp'' @ str_nat (c' + 1)), c' + 1, Function (Some ''_'') (Some args'))"
    by (rule flatten_underscore)
next
  fix sf args strs args'
  assume "transform_each sf args = Inr (strs, args')"
  then show "transform_ast sf (Function (Some ''_'') (Some args))
        = Inr (''_'' @ ''('' @ join '', '' strs @ '')'', Function (Some ''_'') (Some args'))"
    by (rule transform_underscore)
qed

theorem glyph_tables_differ_on_underscore_witness:
  "Some ''@'' \<noteq> Some ''_'' \<and>
   dict_get glyph_map_flat (Some ''@'') = dict_get glyph_map_direct (Some ''@'') \<and>
   flatten_each (\<lambda>v. ''0.5'') 0 [String ''a''] = Inr (([], [''a'']), 0, [String ''a'']) \<and>
   flatten_ast (\<lambda>v. ''0.5'') 0 (Function (Some ''_'') (Some [String ''a'']))
     = Inr (([''temp1 = underscore(a)''], ''temp1''), 1, Function (Some ''_'') (Some [String ''a''])) \<and>
   transform_each (\<lambda>v. ''0.5'') [String ''a''] = Inr ([''a''], [String ''a'']) \<and>
   transform_ast (\<lambda>v. ''0.5'') (Function (Some ''_'') (Some [String ''a'']))
     = Inr (''_(a)'', Function (Some ''_'') (Some [String ''a'']))"
proof -
  note t = glyph_tables_differ_on_underscore
  have n: "Some ''@'' \<noteq> Some ''_''" by simp
  have fe: "flatten_each (\<lambda>v. ''0.5'') 0 [String ''a''] = Inr (([], [''a'']), 0, [String ''a''])"
    by simp
  have te: "transform_each (\<lambda>v. ''0.5'') [String ''a''] = Inr ([''a''], [String ''a''])"
    by simp
  note a = t [THEN conjunct2, THEN conjunct2, THEN conjunct1, rule_format, OF n]
  note f0 = t [THEN conjunct2, THEN conjunct2, THEN conjunct2, THEN conjunct1, rule_format, OF fe]
  note d0 = t [THEN conjunct2, THEN conjunct2, THEN conjunct2, THEN conjunct2, rule_format, OF te]
  have f: "flatten_ast (\<lambda>v. ''0.5'') 0 (Function (Some ''_'') (Some [String ''a'']))
     = Inr (([''temp1 = underscore(a)''], ''temp1''), 1, Function (Some ''_'') (Some [String ''a'']))"
    unfolding f0 by (simp add: join_def str_nat_1)
  have d: "transform_ast (\<lambda>v. ''0.5'') (Function (Some ''_'') (Some [String ''a'']))
     = Inr (''_(a)'', Function (Some ''_'') (Some [String ''a'']))"
    unfolding d0 by (simp add: join_def)
  show ?thesis by (intro conjI n a fe f te d)
qed




























lemma current_token_remaining:
  "current_token p = (case remaining p of [] \<Rightarrow> None | t # ts \<Rightarrow> Some t)"
proof (cases "pos p < length (tokens p)")
  case True
  then show ?thesis
    by (simp add: current_token_def remaining_def Cons_nth_drop_Suc[symmetric])
next
  case False
  then show ?thesis by (simp add: current_token_def remaining_def)
qed

lemma fst_consume: "fst (consume p) = current_token p"
  by (simp add: consume_def)

lemma remaining_consume: "remaining (snd (consume p)) = tl (remaining p)"
  by (simp add: consume_def remaining_def drop_Suc tl_drop)

lemma same_refl_iff: "same a a"
  by (cases a) auto

lemma same_and_then:
  assumes "same a b"
    and "\<And>x p q. remaining p = remaining q \<Longrightarrow> same (f (x, p)) (g (x, q))"
  shows "same (and_then a f) (and_then b g)"
  using assms by (cases a; cases b) auto

lemma lsymbol_loop_sim:
  "remaining p = remaining q \<Longrightarrow> same (lsymbol_loop n p syms) (lsymbol_loop n q syms)"
proof (induction n arbitrary: p q syms)
  case 0
  then show ?case by simp
next
  case (Suc n)
  have c: "current_token p = current_token q" using Suc.prems by (simp add: current_token_remaining)
  have r: "remaining (snd (consume p)) = remaining (snd (consume q))"
    using Suc.prems by (simp add: remaining_consume)
  show ?case
    using c Suc.prems Suc.IH[OF r] by (simp add: split_def Let_def fst_consume)
qed

lemma parse_type_constructor_sim:
  assumes "remaining p = remaining q"
  shows "same (parse_type_constructor n t p) (parse_type_constructor n t q)"
proof -
  have c: "current_token p = current_token q" using assms by (simp add: current_token_remaining)
  have r1: "remaining (snd (consume p)) = remaining (snd (consume q))"
    using assms by (simp add: remaining_consume)
  then have c1: "current_token (snd (consume p)) = current_token (snd (consume q))"
    by (simp add: current_token_remaining)
  have r2: "remaining (snd (consume (snd (consume p)))) = remaining (snd (consume (snd (consume q))))"
    using r1 by (simp add: remaining_consume)
  have r3: "remaining (snd (consume (snd (consume (snd (consume p))))))
      = remaining (snd (consume (snd (consume (snd (consume q))))))"
    using r2 by (simp add: remaining_consume)
  have l: "same (and_then (lsymbol_loop n (snd (consume p)) [])
            (\<lambda>(symbols, p). let p = snd (consume p) in Return (List (Some symbols), p)))
          (and_then (lsymbol_loop n (snd (consume q)) [])
            (\<lambda>(symbols, p). let p = snd (consume p) in Return (List (Some symbols), p)))"
    by (rule same_and_then[OF lsymbol_loop_sim[OF r1]]) (simp add: remaining_consume)
  have i: "same (and_then (int_of_token tk) (\<lambda>v. Return (Integer v, snd (consume (snd (consume (snd (consume p)))))))) 
     (and_then (int_of_token tk) (\<lambda>v. Return (Integer v, snd (consume (snd (consume (snd (consume q))))))))" for tk
    using r3 by (cases "int_of_token tk") auto
  have f: "same (and_then (float_of_token tk) (\<lambda>v. Return (Float v, snd (consume (snd (consume (snd (consume p)))))))) 
     (and_then (float_of_token tk) (\<lambda>v. Return (Float v, snd (consume (snd (consume (snd (consume q))))))))" for tk
    using r3 by (cases "float_of_token tk") auto
  show ?thesis
    unfolding parse_type_constructor_def
    using c c1 r3 l i f assms by (simp add: split_def Let_def fst_consume)
qed

lemma parser_sim_aux:
  "(\<forall>p q. remaining p = remaining q \<longrightarrow> same (parse_expression n p) (parse_expression n q)) \<and>
   (\<forall>p q. remaining p = remaining q \<longrightarrow> same (parse_list n p) (parse_list n q)) \<and>
   (\<forall>p q es. remaining p = remaining q \<longrightarrow> same (parse_list_loop n p es) (parse_list_loop n q es)) \<and>
   (\<forall>p q. remaining p = remaining q \<longrightarrow> same (parse_dict n p) (parse_dict n q))"
proof (induction n)
  case 0
  then show ?case by simp
next
  case (Suc n)
  have ie: "same (parse_expression n p) (parse_expression n q)" if "remaining p = remaining q" for p q
    using Suc that by blast
  have il: "same (parse_list n p) (parse_list n q)" if "remaining p = remaining q" for p q
    using Suc that by blast
  have ill: "same (parse_list_loop n p es) (parse_list_loop n q es)" if "remaining p = remaining q" for p q es
    using Suc that by blast
  have id: "same (parse_dict n p) (parse_dict n q)" if "remaining p = remaining q" for p q
    using Suc that by blast
  have e: "same (parse_expression (Suc n) p) (parse_expression (Suc n) q)"
    if r: "remaining p = remaining q" for p q
  proof -
    have c: "current_token p = current_token q" using r by (simp add: current_token_remaining)
    have r1: "remaining (snd (consume p)) = remaining (snd (consume q))"
      using r by (simp add: remaining_consume)
    have s: "same (and_then (parse_simple_token tk) (\<lambda>k. Return (k, snd (consume p))))
                  (and_then (parse_simple_token tk) (\<lambda>k. Return (k, snd (consume q))))" for tk
      using r1 by (cases "parse_simple_token tk") auto
    show ?thesis
      using c il[OF r] id[OF r] parse_type_constructor_sim[OF r1] s
      by (simp add: Let_def split_def fst_consume split: option.splits)
  qed
  have l: "same (parse_list (Suc n) p) (parse_list (Suc n) q)"
    if r: "remaining p = remaining q" for p q
  proof -
    have r1: "remaining (snd (consume p)) = remaining (snd (consume q))"
      using r by (simp add: remaining_consume)
    show ?thesis
      unfolding parse_list.simps Let_def
      by (rule same_and_then[OF ill[OF r1]]) (simp add: remaining_consume)
  qed
  have ll: "same (parse_list_loop (Suc n) p es) (parse_list_loop (Suc n) q es)"
    if r: "remaining p = remaining q" for p q es
  proof -
    have c: "current_token p = current_token q" using r by (simp add: current_token_remaining)
    have r1: "remaining (snd (consume p)) = remaining (snd (consume q))"
      using r by (simp add: remaining_consume)
    have a: "same (and_then (parse_expression n p) (\<lambda>(k, p). parse_list_loop n p (es @ [k])))
                  (and_then (parse_expression n q) (\<lambda>(k, p). parse_list_loop n p (es @ [k])))"
      by (rule same_and_then[OF ie[OF r]]) (simp add: ill)
    show ?thesis using c r ill[OF r1] a by simp
  qed
  have d: "same (parse_dict (Suc n) p) (parse_dict (Suc n) q)"
    if r: "remaining p = remaining q" for p q
  proof -
    have r1: "remaining (snd (consume p)) = remaining (snd (consume q))"
      using r by (simp add: remaining_consume)
    have inner: "same
        (and_then (parse_expression n (snd (consume p'))) (\<lambda>(values, p).
            if current_token p \<noteq> Some ''}'' then
              Raise (ValueError (''Expected '' @ [CHR 0x27, CHR ''}'', CHR 0x27] @ '' in dict, got ''
                       @ str_opt (current_token p)))
            else Return (Dict (Some keys) (Some values), snd (consume p))))
        (and_then (parse_expression n (snd (consume q'))) (\<lambda>(values, p).
            if current_token p \<noteq> Some ''}'' then
              Raise (ValueError (''Expected '' @ [CHR 0x27, CHR ''}'', CHR 0x27] @ '' in dict, got ''
                       @ str_opt (current_token p)))
            else Return (Dict (Some keys) (Some values), snd (consume p))))"
      if r': "remaining p' = remaining q'" for p' q' keys
    proof -
      have r2: "remaining (snd (consume p')) = remaining (snd (consume q'))"
        using r' by (simp add: remaining_consume)
      show ?thesis
        by (rule same_and_then[OF ie[OF r2]])
          (simp add: current_token_remaining remaining_consume Let_def)
    qed
    show ?thesis
      unfolding parse_dict.simps Let_def
    proof (rule same_and_then[OF ie[OF r1]])
      fix x p' q' assume r': "remaining p' = remaining q'"
      then have c: "current_token p' = current_token q'" by (simp add: current_token_remaining)
      show "same (case (x, p') of (keys, p) \<Rightarrow>
            if current_token p \<noteq> Some '','' then
              Raise (ValueError (''Expected '' @ [CHR 0x27, CHR '','', CHR 0x27] @ '' in dict, got ''
                   @ str_opt (current_token p)))
            else and_then (parse_expression n (snd (consume p))) (\<lambda>(values, p).
              if current_token p \<noteq> Some ''}'' then
                Raise (ValueError (''Expected '' @ [CHR 0x27, CHR ''}'', CHR 0x27] @ '' in dict, got ''
                       @ str_opt (current_token p)))
              else Return (Dict (Some keys) (Some values), snd (consume p))))
          (case (x, q') of (keys, p) \<Rightarrow>
            if current_token p \<noteq> Some '','' then
              Raise (ValueError (''Expected '' @ [CHR 0x27, CHR '','', CHR 0x27] @ '' in dict, got ''
                   @ str_opt (current_token p)))
            else and_then (parse_expression n (snd (consume p))) (\<lambda>(values, p).
              if current_token p \<noteq> Some ''}'' then
                Raise (ValueError (''Expected '' @ [CHR 0x27, CHR ''}'', CHR 0x27] @ '' in dict, got ''
                       @ str_opt (current_token p)))
              else Return (Dict (Some keys) (Some values), snd (consume p))))"
        using c inner[OF r', of x] by (simp add: Let_def)
    qed
  qed
  from e l ll d show ?case by blast
qed

lemma parse_expression_sim:
  "remaining p = remaining q \<Longrightarrow> same (parse_expression n p) (parse_expression n q)"
  using parser_sim_aux by blast

lemma parse_list_loop_sim:
  "remaining p = remaining q \<Longrightarrow> same (parse_list_loop n p es) (parse_list_loop n q es)"
  using parser_sim_aux by blast

lemma list_loop_comma_step:
  "current_token p = Some '','' \<Longrightarrow> parse_list_loop (Suc n) p es = parse_list_loop n (snd (consume p)) es"
  by simp

lemma list_loop_element_step:
  "current_token p \<noteq> Some '']'' \<Longrightarrow> current_token p \<noteq> Some '','' \<Longrightarrow>
   parse_expression n p = Return (k, p') \<Longrightarrow>
   parse_list_loop (Suc n) p es = parse_list_loop n p' (es @ [k])"
  by simp

lemma list_loop_end:
  "current_token p = Some '']'' \<Longrightarrow> parse_list_loop (Suc n) p es = Return (es, p)"
  by simp

lemma expression_simple:
  "current_token p = Some w \<Longrightarrow> w \<noteq> ''['' \<Longrightarrow> w \<noteq> ''{'' \<Longrightarrow> constructor_name (Some w) = None \<Longrightarrow>
   parse_simple_token (Some w) = Return k \<Longrightarrow>
   parse_expression (Suc n) p = Return (k, snd (consume p))"
  by (simp add: Let_def split_def fst_consume)

lemma list_loop_skips_comma:
  assumes "remaining q = '','' # remaining p"
  shows "same (parse_list_loop (Suc n) q es) (parse_list_loop n p es)"
proof -
  from assms have c: "current_token q = Some '',''" by (simp add: current_token_remaining)
  from assms have "remaining (snd (consume q)) = remaining p" by (simp add: remaining_consume)
  from parse_list_loop_sim[OF this] show ?thesis
    unfolding list_loop_comma_step[OF c] .
qed

lemma lsymbol_loop_comma_step:
  "current_token p = Some '','' \<Longrightarrow> lsymbol_loop (Suc n) p syms = lsymbol_loop n (snd (consume p)) syms"
  by simp

lemma lsymbol_loop_skips_comma:
  assumes "remaining q = '','' # remaining p"
  shows "same (lsymbol_loop (Suc n) q syms) (lsymbol_loop n p syms)"
proof -
  from assms have c: "current_token q = Some '',''" by (simp add: current_token_remaining)
  from assms have "remaining (snd (consume q)) = remaining p" by (simp add: remaining_consume)
  from lsymbol_loop_sim[OF this] show ?thesis
    unfolding lsymbol_loop_comma_step[OF c] .
qed

lemma current_token_at:
  "current_token \<lparr>tokens = pre @ w # post, pos = length pre\<rparr> = Some w"
  by (simp add: current_token_def)

lemma consume_at:
  "snd (consume \<lparr>tokens = pre @ w # post, pos = length pre\<rparr>)
     = \<lparr>tokens = (pre @ [w]) @ post, pos = length (pre @ [w])\<rparr>"
  by (simp add: consume_def)

lemma flat_list_loop:
  assumes "\<forall>t\<in>set ws. t \<noteq> ''['' \<and> t \<noteq> '']'' \<and> t \<noteq> ''{'' \<and> constructor_name (Some t) = None"
    and "list_all2 (\<lambda>t k. parse_simple_token (Some t) = Return k) (filter (\<lambda>t. t \<noteq> '','') ws) ks"
  shows "parse_list_loop (Suc (length ws + n)) \<lparr>tokens = pre @ ws @ '']'' # post, pos = length pre\<rparr> es
     = Return (es @ ks, \<lparr>tokens = pre @ ws @ '']'' # post, pos = length pre + length ws\<rparr>)"
  using assms
proof (induction ws arbitrary: pre es ks)
  case Nil
  have "current_token \<lparr>tokens = pre @ '']'' # post, pos = length pre\<rparr> = Some '']''"
    by (rule current_token_at)
  from list_loop_end[OF this] Nil show ?case by simp
next
  case (Cons w ws)
  define P where "P = \<lparr>tokens = pre @ w # (ws @ '']'' # post), pos = length pre\<rparr>"
  define P' where "P' = \<lparr>tokens = (pre @ [w]) @ ws @ '']'' # post, pos = length (pre @ [w])\<rparr>"
  have c: "current_token P = Some w" unfolding P_def by (rule current_token_at)
  have cs: "snd (consume P) = P'" unfolding P_def P'_def by (rule consume_at)
  from Cons.prems(1) have w: "w \<noteq> ''[''" "w \<noteq> '']''" "w \<noteq> ''{''" "constructor_name (Some w) = None"
    and rest: "\<forall>t\<in>set ws. t \<noteq> ''['' \<and> t \<noteq> '']'' \<and> t \<noteq> ''{'' \<and> constructor_name (Some t) = None"
    by simp_all
  have goal: "parse_list_loop (Suc (Suc (length ws + n))) P es
      = Return (es @ ks, \<lparr>tokens = (pre @ [w]) @ ws @ '']'' # post, pos = length (pre @ [w]) + length ws\<rparr>)"
  proof (cases "w = '',''")
    case True
    with Cons.prems(2) have l: "list_all2 (\<lambda>t k. parse_simple_token (Some t) = Return k)
        (filter (\<lambda>t. t \<noteq> '','') ws) ks" by simp
    from c True have "current_token P = Some '',''" by simp
    from list_loop_comma_step[OF this] have "parse_list_loop (Suc (Suc (length ws + n))) P es
        = parse_list_loop (Suc (length ws + n)) P' es"
      unfolding cs .
    also have "\<dots> = Return (es @ ks, \<lparr>tokens = (pre @ [w]) @ ws @ '']'' # post,
        pos = length (pre @ [w]) + length ws\<rparr>)"
      unfolding P'_def by (rule Cons.IH[OF rest l])
    finally show ?thesis .
  next
    case False
    with Cons.prems(2) obtain k ks' where ks: "ks = k # ks'"
      and k: "parse_simple_token (Some w) = Return k"
      and l: "list_all2 (\<lambda>t k. parse_simple_token (Some t) = Return k)
        (filter (\<lambda>t. t \<noteq> '','') ws) ks'"
      by (auto simp: list_all2_Cons1)
    have e: "parse_expression (Suc (length ws + n)) P = Return (k, P')"
      using expression_simple[OF c w(1) w(3) w(4) k] unfolding cs .
    from c w(2) have n1: "current_token P \<noteq> Some '']''" by simp
    from c False have n2: "current_token P \<noteq> Some '',''" by simp
    have "parse_list_loop (Suc (Suc (length ws + n))) P es
        = parse_list_loop (Suc (length ws + n)) P' (es @ [k])"
      by (rule list_loop_element_step[OF n1 n2 e])
    also have "\<dots> = Return ((es @ [k]) @ ks', \<lparr>tokens = (pre @ [w]) @ ws @ '']'' # post,
        pos = length (pre @ [w]) + length ws\<rparr>)"
      unfolding P'_def by (rule Cons.IH[OF rest l])
    finally show ?thesis by (simp add: ks)
  qed
  have "length (w # ws) + n = Suc (length ws + n)" by simp
  moreover have "pre @ (w # ws) @ '']'' # post = pre @ w # (ws @ '']'' # post)" by simp
  moreover have "(pre @ [w]) @ ws @ '']'' # post = pre @ w # (ws @ '']'' # post)" by simp
  moreover have "length (pre @ [w]) + length ws = length pre + length (w # ws)" by simp
  ultimately show ?case using goal unfolding P_def by (simp only:)
qed

lemma expression_list:
  "current_token p = Some ''['' \<Longrightarrow> parse_expression (Suc n) p = parse_list n p"
  by (simp add: Let_def)

lemma list_of_loop:
  "parse_list_loop n (snd (consume p)) [] = Return (es, p') \<Longrightarrow>
   parse_list (Suc n) p = Return (List (Some es), snd (consume p'))"
  by (simp add: Let_def)

lemma parse_of_expression:
  "parse_expression n \<lparr>tokens = ts, pos = 0\<rparr> = Return (k, p) \<Longrightarrow> parse n ts = Return k"
  by (simp add: parse_def)

lemma flat_list_parse:
  assumes "\<forall>t\<in>set ws. t \<noteq> ''['' \<and> t \<noteq> '']'' \<and> t \<noteq> ''{'' \<and> constructor_name (Some t) = None"
    and "list_all2 (\<lambda>t k. parse_simple_token (Some t) = Return k) (filter (\<lambda>t. t \<noteq> '','') ws) ks"
    and "length ws + 3 \<le> m"
  shows "parse m (''['' # ws @ ['']'']) = Return (List (Some ks))"
proof -
  define n where "n = m - (length ws + 3)"
  with assms(3) have m: "m = Suc (Suc (Suc (length ws + n)))" by simp
  define P0 where "P0 = \<lparr>tokens = [] @ ''['' # (ws @ ['']'']), pos = length ([] :: string list)\<rparr>"
  have c: "current_token P0 = Some ''[''" unfolding P0_def by (rule current_token_at)
  have cs: "snd (consume P0) = \<lparr>tokens = [''[''] @ ws @ '']'' # [], pos = length [''['']\<rparr>"
    unfolding P0_def using consume_at[of "[]" "''[''" "ws @ ['']'']"] by simp
  have "parse_list_loop (Suc (length ws + n)) (snd (consume P0)) []
     = Return ([] @ ks, \<lparr>tokens = [''[''] @ ws @ '']'' # [], pos = length [''[''] + length ws\<rparr>)"
    unfolding cs by (rule flat_list_loop[OF assms(1,2)])
  from list_of_loop[OF this] have "parse_expression (Suc (Suc (Suc (length ws + n)))) P0
     = Return (List (Some ([] @ ks)),
         snd (consume \<lparr>tokens = [''[''] @ ws @ '']'' # [], pos = length [''[''] + length ws\<rparr>))"
    unfolding expression_list[OF c] .
  then have "parse_expression m \<lparr>tokens = ''['' # ws @ ['']''], pos = 0\<rparr>
     = Return (List (Some ks),
         snd (consume \<lparr>tokens = [''[''] @ ws @ '']'' # [], pos = length [''[''] + length ws\<rparr>))"
    unfolding m P0_def by simp
  then show ?thesis by (rule parse_of_expression)
qed

lemma lsymbol_loop_element_step:
  "current_token p = Some w \<Longrightarrow> w \<noteq> '']'' \<Longrightarrow> w \<noteq> '','' \<Longrightarrow>
   lsymbol_loop (Suc n) p syms = lsymbol_loop n (snd (consume p)) (syms @ [Symbol (Some w)])"
  by (simp add: split_def fst_consume)

lemma lsymbol_loop_end:
  "current_token p = Some '']'' \<Longrightarrow> lsymbol_loop (Suc n) p syms = Return (syms, p)"
  by simp

lemma flat_lsymbol_loop:
  assumes "'']'' \<notin> set ws"
  shows "lsymbol_loop (Suc (length ws + n)) \<lparr>tokens = pre @ ws @ '']'' # post, pos = length pre\<rparr> syms
     = Return (syms @ map (\<lambda>t. Symbol (Some t)) (filter (\<lambda>t. t \<noteq> '','') ws),
               \<lparr>tokens = pre @ ws @ '']'' # post, pos = length pre + length ws\<rparr>)"
  using assms
proof (induction ws arbitrary: pre syms)
  case Nil
  have "current_token \<lparr>tokens = pre @ '']'' # post, pos = length pre\<rparr> = Some '']''"
    by (rule current_token_at)
  from lsymbol_loop_end[OF this] show ?case by simp
next
  case (Cons w ws)
  define P where "P = \<lparr>tokens = pre @ w # (ws @ '']'' # post), pos = length pre\<rparr>"
  define P' where "P' = \<lparr>tokens = (pre @ [w]) @ ws @ '']'' # post, pos = length (pre @ [w])\<rparr>"
  have c: "current_token P = Some w" unfolding P_def by (rule current_token_at)
  have cs: "snd (consume P) = P'" unfolding P_def P'_def by (rule consume_at)
  from Cons.prems have w: "w \<noteq> '']''" and rest: "'']'' \<notin> set ws" by auto
  have goal: "lsymbol_loop (Suc (Suc (length ws + n))) P syms
      = Return (syms @ map (\<lambda>t. Symbol (Some t)) (filter (\<lambda>t. t \<noteq> '','') (w # ws)),
          \<lparr>tokens = (pre @ [w]) @ ws @ '']'' # post, pos = length (pre @ [w]) + length ws\<rparr>)"
  proof (cases "w = '',''")
    case True
    from c True have "current_token P = Some '',''" by simp
    from lsymbol_loop_comma_step[OF this] have "lsymbol_loop (Suc (Suc (length ws + n))) P syms
        = lsymbol_loop (Suc (length ws + n)) P' syms"
      unfolding cs .
    also have "\<dots> = Return (syms @ map (\<lambda>t. Symbol (Some t)) (filter (\<lambda>t. t \<noteq> '','') ws),
        \<lparr>tokens = (pre @ [w]) @ ws @ '']'' # post, pos = length (pre @ [w]) + length ws\<rparr>)"
      unfolding P'_def by (rule Cons.IH[OF rest])
    finally show ?thesis using True by simp
  next
    case False
    have "lsymbol_loop (Suc (Suc (length ws + n))) P syms
        = lsymbol_loop (Suc (length ws + n)) P' (syms @ [Symbol (Some w)])"
      using lsymbol_loop_element_step[OF c w False] unfolding cs .
    also have "\<dots> = Return ((syms @ [Symbol (Some w)]) @ map (\<lambda>t. Symbol (Some t)) (filter (\<lambda>t. t \<noteq> '','') ws),
        \<lparr>tokens = (pre @ [w]) @ ws @ '']'' # post, pos = length (pre @ [w]) + length ws\<rparr>)"
      unfolding P'_def by (rule Cons.IH[OF rest])
    finally show ?thesis using False by simp
  qed
  have "length (w # ws) + n = Suc (length ws + n)" by simp
  moreover have "pre @ (w # ws) @ '']'' # post = pre @ w # (ws @ '']'' # post)" by simp
  moreover have "(pre @ [w]) @ ws @ '']'' # post = pre @ w # (ws @ '']'' # post)" by simp
  moreover have "length (pre @ [w]) + length ws = length pre + length (w # ws)" by simp
  ultimately show ?case using goal unfolding P_def by (simp only:)
qed

lemma expression_constructor:
  "current_token p = Some w \<Longrightarrow> w \<noteq> ''['' \<Longrightarrow> w \<noteq> ''{'' \<Longrightarrow> constructor_name (Some w) = Some w' \<Longrightarrow>
   parse_expression (Suc n) p = parse_type_constructor n w' (snd (consume p))"
  by (simp add: Let_def)

lemma constructor_lsymbol:
  "current_token p = Some ''['' \<Longrightarrow> lsymbol_loop n (snd (consume p)) [] = Return (syms, p') \<Longrightarrow>
   parse_type_constructor n ''LSymbol'' p = Return (List (Some syms), snd (consume p'))"
  by (simp add: parse_type_constructor_def Let_def)

lemma flat_lsymbol_parse:
  assumes "'']'' \<notin> set ws" and "length ws + 2 \<le> m"
  shows "parse m (''LSymbol'' # ''['' # ws @ ['']''])
     = Return (List (Some (map (\<lambda>t. Symbol (Some t)) (filter (\<lambda>t. t \<noteq> '','') ws))))"
proof -
  define n where "n = m - (length ws + 2)"
  with assms(2) have m: "m = Suc (Suc (length ws + n))" by simp
  define P0 where "P0 = \<lparr>tokens = [] @ ''LSymbol'' # (''['' # ws @ ['']'']), pos = length ([] :: string list)\<rparr>"
  define P1 where "P1 = \<lparr>tokens = [''LSymbol''] @ ''['' # (ws @ ['']'']), pos = length [''LSymbol'']\<rparr>"
  have c0: "current_token P0 = Some ''LSymbol''" unfolding P0_def by (rule current_token_at)
  have cs0: "snd (consume P0) = P1"
    unfolding P0_def P1_def using consume_at[of "[]" "''LSymbol''" "''['' # ws @ ['']'']"] by simp
  have c1: "current_token P1 = Some ''[''" unfolding P1_def by (rule current_token_at)
  have cs1: "snd (consume P1) = \<lparr>tokens = [''LSymbol'', ''[''] @ ws @ '']'' # [], pos = length [''LSymbol'', ''['']\<rparr>"
    unfolding P1_def using consume_at[of "[''LSymbol'']" "''[''" "ws @ ['']'']"] by simp
  have cn: "constructor_name (Some ''LSymbol'') = Some ''LSymbol''"
    by (simp add: constructor_name_def isupper_char_def)
  have "lsymbol_loop (Suc (length ws + n)) (snd (consume P1)) []
     = Return ([] @ map (\<lambda>t. Symbol (Some t)) (filter (\<lambda>t. t \<noteq> '','') ws),
         \<lparr>tokens = [''LSymbol'', ''[''] @ ws @ '']'' # [], pos = length [''LSymbol'', ''[''] + length ws\<rparr>)"
    unfolding cs1 by (rule flat_lsymbol_loop[OF assms(1)])
  from constructor_lsymbol[OF c1 this]
  have "parse_expression (Suc (Suc (length ws + n))) P0
     = Return (List (Some ([] @ map (\<lambda>t. Symbol (Some t)) (filter (\<lambda>t. t \<noteq> '','') ws))),
         snd (consume \<lparr>tokens = [''LSymbol'', ''[''] @ ws @ '']'' # [],
            pos = length [''LSymbol'', ''[''] + length ws\<rparr>))"
    using expression_constructor[OF c0 _ _ cn, of "Suc (length ws + n)"] unfolding cs0 by simp
  then have "parse_expression m \<lparr>tokens = ''LSymbol'' # ''['' # ws @ ['']''], pos = 0\<rparr>
     = Return (List (Some (map (\<lambda>t. Symbol (Some t)) (filter (\<lambda>t. t \<noteq> '','') ws))),
         snd (consume \<lparr>tokens = [''LSymbol'', ''[''] @ ws @ '']'' # [],
            pos = length [''LSymbol'', ''[''] + length ws\<rparr>))"
    unfolding m P0_def by simp
  then show ?thesis by (rule parse_of_expression)
qed

lemma tokenize_commas: "tokenize ''[,a,,b,]'' = ''['' # ['','', ''a'', '','', '','', ''b'', '',''] @ ['']'']"
  by code_simp

lemma tokenize_a_b: "tokenize ''[a,b]'' = ''['' # [''a'', '','', ''b''] @ ['']'']"
  by code_simp

lemma tokenize_empty_list: "tokenize ''[]'' = ''['' # [] @ ['']'']"
  by code_simp

lemma atom_a_b:
  "constructor_name (Some ''a'') = None" "constructor_name (Some ''b'') = None"
  "constructor_name (Some '','') = None"
  "parse_simple_token (Some ''a'') = Return (String ''a'')"
  "parse_simple_token (Some ''b'') = Return (String ''b'')"
  by (simp_all add: constructor_name_def isupper_char_def parse_simple_token_def isdigit_def
      isdigit_char_def decimal_def)

lemma parse_commas_example:
  assumes "9 \<le> m"
  shows "parse m (tokenize ''[,a,,b,]'') = Return (List (Some [String ''a'', String ''b'']))"
    and "parse m (tokenize ''[a,b]'') = Return (List (Some [String ''a'', String ''b'']))"
proof -
  show "parse m (tokenize ''[,a,,b,]'') = Return (List (Some [String ''a'', String ''b'']))"
    unfolding tokenize_commas
    by (rule flat_list_parse) (use assms in \<open>simp_all add: atom_a_b\<close>)
  show "parse m (tokenize ''[a,b]'') = Return (List (Some [String ''a'', String ''b'']))"
    unfolding tokenize_a_b
    by (rule flat_list_parse) (use assms in \<open>simp_all add: atom_a_b\<close>)
qed

lemma parse_empty_list:
  assumes "3 \<le> m"
  shows "parse m (tokenize ''[]'') = Return (List (Some []))"
  unfolding tokenize_empty_list
  by (rule flat_list_parse) (use assms in simp_all)

text \<open>
  C10. Wherever the loop of \<^verbatim>\<open>parse_list\<close> or the loop of \<^verbatim>\<open>LSymbol\<close> tests the current token,
  a comma standing there is skipped: with one more round, the loop started before the comma
  has the outcome of the loop started behind it (the same elements, the same tokens left,
  or the same error). These places are the start of the list, the place after each element
  and the place after each skipped comma, so leading, trailing and repeated commas change
  nothing. For a bracketed list of simple tokens the elements are the classified tokens
  that are not commas, and for \<^verbatim>\<open>LSymbol\<close> they are the symbols of the tokens that are not
  commas. \<^verbatim>\<open>[,a,,b,]\<close> parses to the list that \<^verbatim>\<open>[a,b]\<close> parses to, and \<^verbatim>\<open>[]\<close> to the list
  without elements.
\<close>

theorem commas_are_skipped_in_lists:
  "(\<forall>n p q es. remaining q = '','' # remaining p
      \<longrightarrow> same (parse_list_loop (Suc n) q es) (parse_list_loop n p es)) \<and>
   (\<forall>n p q syms. remaining q = '','' # remaining p
      \<longrightarrow> same (lsymbol_loop (Suc n) q syms) (lsymbol_loop n p syms)) \<and>
   (\<forall>ws ks m.
      list_all (\<lambda>t. t \<noteq> ''['' \<and> t \<noteq> '']'' \<and> t \<noteq> ''{'' \<and> constructor_name (Some t) = None) ws \<and>
      list_all2 (\<lambda>t k. parse_simple_token (Some t) = Return k) (filter (\<lambda>t. t \<noteq> '','') ws) ks \<and>
      length ws + 3 \<le> m
      \<longrightarrow> parse m (''['' # ws @ ['']'']) = Return (List (Some ks))) \<and>
   (\<forall>ws m. '']'' \<notin> set ws \<and> length ws + 2 \<le> m
      \<longrightarrow> parse m (''LSymbol'' # ''['' # ws @ ['']''])
          = Return (List (Some (map (\<lambda>t. Symbol (Some t)) (filter (\<lambda>t. t \<noteq> '','') ws))))) \<and>
   (\<forall>m. 9 \<le> m
      \<longrightarrow> parse m (tokenize ''[,a,,b,]'') = Return (List (Some [String ''a'', String ''b''])) \<and>
          parse m (tokenize ''[a,b]'') = Return (List (Some [String ''a'', String ''b'']))) \<and>
   (\<forall>m. 3 \<le> m \<longrightarrow> parse m (tokenize ''[]'') = Return (List (Some [])))"
proof (intro conjI allI impI)
  fix n p q and es :: "node list"
  assume "remaining q = '','' # remaining p"
  then show "same (parse_list_loop (Suc n) q es) (parse_list_loop n p es)"
    by (rule list_loop_skips_comma)
next
  fix n p q and syms :: "node list"
  assume "remaining q = '','' # remaining p"
  then show "same (lsymbol_loop (Suc n) q syms) (lsymbol_loop n p syms)"
    by (rule lsymbol_loop_skips_comma)
next
  fix ws ks m
  assume a: "list_all (\<lambda>t. t \<noteq> ''['' \<and> t \<noteq> '']'' \<and> t \<noteq> ''{'' \<and> constructor_name (Some t) = None) ws \<and>
      list_all2 (\<lambda>t k. parse_simple_token (Some t) = Return k) (filter (\<lambda>t. t \<noteq> '','') ws) ks \<and>
      length ws + 3 \<le> m"
  then have "\<forall>t\<in>set ws. t \<noteq> ''['' \<and> t \<noteq> '']'' \<and> t \<noteq> ''{'' \<and> constructor_name (Some t) = None"
    by (simp add: list_all_iff)
  from flat_list_parse[OF this] a show "parse m (''['' # ws @ ['']'']) = Return (List (Some ks))"
    by blast
next
  fix ws m
  assume "'']'' \<notin> set ws \<and> length ws + 2 \<le> m"
  then show "parse m (''LSymbol'' # ''['' # ws @ ['']''])
          = Return (List (Some (map (\<lambda>t. Symbol (Some t)) (filter (\<lambda>t. t \<noteq> '','') ws))))"
    using flat_lsymbol_parse by blast
next
  fix m :: nat assume "9 \<le> m"
  then show "parse m (tokenize ''[,a,,b,]'') = Return (List (Some [String ''a'', String ''b'']))"
    by (rule parse_commas_example(1))
next
  fix m :: nat assume "9 \<le> m"
  then show "parse m (tokenize ''[a,b]'') = Return (List (Some [String ''a'', String ''b'']))"
    by (rule parse_commas_example(2))
next
  fix m :: nat assume "3 \<le> m"
  then show "parse m (tokenize ''[]'') = Return (List (Some []))"
    by (rule parse_empty_list)
qed

theorem commas_are_skipped_in_lists_witness:
  "remaining \<lparr>tokens = [''['', '','', ''a'', '']''], pos = 1\<rparr>
     = '','' # remaining \<lparr>tokens = [''['', ''a'', '']''], pos = 1\<rparr> \<and>
   same (parse_list_loop (Suc 2) \<lparr>tokens = [''['', '','', ''a'', '']''], pos = 1\<rparr> [])
        (parse_list_loop 2 \<lparr>tokens = [''['', ''a'', '']''], pos = 1\<rparr> []) \<and>
   parse_list_loop 2 \<lparr>tokens = [''['', ''a'', '']''], pos = 1\<rparr> []
     = Return ([String ''a''], \<lparr>tokens = [''['', ''a'', '']''], pos = 2\<rparr>) \<and>
   same (lsymbol_loop (Suc 2) \<lparr>tokens = [''['', '','', ''a'', '']''], pos = 1\<rparr> [])
        (lsymbol_loop 2 \<lparr>tokens = [''['', ''a'', '']''], pos = 1\<rparr> []) \<and>
   list_all (\<lambda>t. t \<noteq> ''['' \<and> t \<noteq> '']'' \<and> t \<noteq> ''{'' \<and> constructor_name (Some t) = None)
     ['','', ''a'', '','', '','', ''7'', '',''] \<and>
   list_all2 (\<lambda>t k. parse_simple_token (Some t) = Return k)
     (filter (\<lambda>t. t \<noteq> '','') ['','', ''a'', '','', '','', ''7'', '','']) [String ''a'', Integer 7] \<and>
   parse 9 (''['' # ['','', ''a'', '','', '','', ''7'', '',''] @ ['']''])
     = Return (List (Some [String ''a'', Integer 7])) \<and>
   parse 6 (''LSymbol'' # ''['' # ['','', ''s'', '','', ''t''] @ ['']''])
     = Return (List (Some [Symbol (Some ''s''), Symbol (Some ''t'')])) \<and>
   parse 9 (tokenize ''[,a,,b,]'') = Return (List (Some [String ''a'', String ''b''])) \<and>
   parse 9 (tokenize ''[a,b]'') = Return (List (Some [String ''a'', String ''b''])) \<and>
   parse 3 (tokenize ''[]'') = Return (List (Some []))"
proof -
  note t = commas_are_skipped_in_lists
  have r: "remaining \<lparr>tokens = [''['', '','', ''a'', '']''], pos = 1\<rparr>
     = '','' # remaining \<lparr>tokens = [''['', ''a'', '']''], pos = 1\<rparr>"
    by (simp add: remaining_def)
  note a = t [THEN conjunct1, rule_format, OF r, of 2 "[]"]
  have a': "parse_list_loop 2 \<lparr>tokens = [''['', ''a'', '']''], pos = 1\<rparr> []
     = Return ([String ''a''], \<lparr>tokens = [''['', ''a'', '']''], pos = 2\<rparr>)"
    by code_simp
  note b = t [THEN conjunct2, THEN conjunct1, rule_format, OF r, of 2 "[]"]
  have h1: "list_all (\<lambda>t. t \<noteq> ''['' \<and> t \<noteq> '']'' \<and> t \<noteq> ''{'' \<and> constructor_name (Some t) = None)
     ['','', ''a'', '','', '','', ''7'', '','']"
    by code_simp
  have h2: "list_all2 (\<lambda>t k. parse_simple_token (Some t) = Return k)
     (filter (\<lambda>t. t \<noteq> '','') ['','', ''a'', '','', '','', ''7'', '','']) [String ''a'', Integer 7]"
    by code_simp
  have h3: "length ['','', ''a'', '','', '','', ''7'', '',''] + 3 \<le> (9 :: nat)" by simp
  note c = t [THEN conjunct2, THEN conjunct2, THEN conjunct1, rule_format, OF conjI [OF h1 conjI [OF h2 h3]]]
  have h4: "'']'' \<notin> set ['','', ''s'', '','', ''t''] \<and> length ['','', ''s'', '','', ''t''] + 2 \<le> (6 :: nat)"
    by simp
  have d: "parse 6 (''LSymbol'' # ''['' # ['','', ''s'', '','', ''t''] @ ['']''])
     = Return (List (Some [Symbol (Some ''s''), Symbol (Some ''t'')]))"
    using t [THEN conjunct2, THEN conjunct2, THEN conjunct2, THEN conjunct1, rule_format, OF h4] by simp
  have n9: "(9 :: nat) \<le> 9" by simp
  have n3: "(3 :: nat) \<le> 3" by simp
  note e = t [THEN conjunct2, THEN conjunct2, THEN conjunct2, THEN conjunct2, THEN conjunct1, rule_format, OF n9]
  note f = t [THEN conjunct2, THEN conjunct2, THEN conjunct2, THEN conjunct2, THEN conjunct2, rule_format, OF n3]
  show ?thesis by (intro conjI r a a' b h1 h2 c d e [THEN conjunct1] e [THEN conjunct2] f)
qed

end
